theory Spec2Isabelle
  imports Complex_Main "HOL-Library.AList" "HOL-Library.Sublist"
begin

section \<open>Python values\<close>

text \<open>
  A Python float is one of the finite doubles, the two infinities or NaN. A finite double
  is represented by the real number it denotes. The program does no arithmetic on floats:
  it stores the floats it reads and converts ints to floats.
\<close>

datatype pyfloat = Finite real | PInf | NInf | NaN

text \<open>
  The objects for which \<^verbatim>\<open>isinstance(x, (int, float))\<close> holds: Python ints, bools
  (\<^verbatim>\<open>bool\<close> is a subclass of \<^verbatim>\<open>int\<close>) and floats (\<^verbatim>\<open>numpy.float64\<close> is a
  subclass of \<^verbatim>\<open>float\<close>).
\<close>

datatype pynum = PyInt int | PyBool bool | PyFloat pyfloat

text \<open>
  The scalar that \<^verbatim>\<open>df.iloc[r, c]\<close> returns. A column of dtype object holds Python
  objects and a float64 column holds \<^verbatim>\<open>numpy.float64\<close>: these numbers are \<open>Num\<close>. A
  column of integers only has dtype int64 and holds \<^verbatim>\<open>numpy.int64\<close> scalars, which are
  numbers but instances of neither \<^verbatim>\<open>int\<close> nor \<^verbatim>\<open>float\<close>: these are \<open>NpInt\<close>. A
  \<^verbatim>\<open>str\<close> is \<open>PyStr\<close>, a list of code points below 256. Any other object
  (\<^verbatim>\<open>None\<close>, a timestamp, a \<^verbatim>\<open>numpy.bool_\<close>, ...) is \<open>PyOther\<close>, of which only
  whether pandas counts it as missing is recorded.
\<close>

datatype cell = Num pynum | NpInt int | PyStr string | PyOther (is_na: bool)

datatype exn =
    IndexError | OverflowError | ValueError | HTTPError | ConnectionError | OSError
  | FileNotFoundError | SheetLoadError

text \<open>\<^verbatim>\<open>isinstance(x, (int, float))\<close> and \<^verbatim>\<open>pd.notna(x)\<close>.\<close>

fun isinstance_int_float :: "cell \<Rightarrow> bool" where
  "isinstance_int_float (Num n) = True"
| "isinstance_int_float (NpInt i) = False"
| "isinstance_int_float (PyStr s) = False"
| "isinstance_int_float (PyOther na) = False"

fun notna :: "cell \<Rightarrow> bool" where
  "notna (Num (PyFloat NaN)) = False"
| "notna (Num n) = True"
| "notna (NpInt i) = True"
| "notna (PyStr s) = True"
| "notna (PyOther na) = (\<not> na)"

text \<open>
  \<^verbatim>\<open>int(x)\<close> truncates a finite float toward zero and raises on an infinity
  (OverflowError) and on NaN (ValueError).
\<close>

fun py_int :: "pynum \<Rightarrow> exn + int" where
  "py_int (PyInt i) = Inr i"
| "py_int (PyBool b) = Inr (if b then 1 else 0)"
| "py_int (PyFloat (Finite r)) = Inr (if 0 \<le> r then \<lfloor>r\<rfloor> else \<lceil>r\<rceil>)"
| "py_int (PyFloat PInf) = Inl OverflowError"
| "py_int (PyFloat NInf) = Inl OverflowError"
| "py_int (PyFloat NaN) = Inl ValueError"

text \<open>
  The double nearest to an int, as an int: an int of at most 53 bits is a double; a
  longer one keeps its leading 53 bits, rounded to nearest with ties to the even
  mantissa. \<open>bit_length\<close> is \<^verbatim>\<open>int.bit_length\<close> on a non-negative int.
\<close>

function bit_length :: "int \<Rightarrow> nat" where
  "bit_length a = (if a \<le> 0 then 0 else Suc (bit_length (a div 2)))"
  by pat_completeness auto
termination
  by (relation "measure nat") auto

definition round_to_double :: "int \<Rightarrow> int" where
  "round_to_double i =
     (let a = \<bar>i\<bar>; n = bit_length a in
      if n \<le> 53 then i
      else
        (let s = n - 53; q = a div 2 ^ s; r = a mod 2 ^ s; h = 2 ^ (s - 1);
             m = (if h < r \<or> (r = h \<and> odd q) then q + 1 else q)
         in sgn i * (m * 2 ^ s)))"

text \<open>
  \<^verbatim>\<open>float(x)\<close>. An int is rounded to the nearest double; one whose nearest double
  would be \<open>2 ^ 1024\<close> or beyond raises OverflowError: the largest finite double is
  \<open>2 ^ 1024 - 2 ^ 971\<close>, and the ints from \<open>2 ^ 1024 - 2 ^ 970\<close> on round up past it.
\<close>

definition float_overflow_bound :: int where
  "float_overflow_bound = 2 ^ 1024 - 2 ^ 970"

fun py_float :: "pynum \<Rightarrow> exn + pyfloat" where
  "py_float (PyInt i) =
     (if float_overflow_bound \<le> \<bar>i\<bar> then Inl OverflowError
      else Inr (Finite (of_int (round_to_double i))))"
| "py_float (PyBool b) = Inr (Finite (if b then 1 else 0))"
| "py_float (PyFloat f) = Inr f"

section \<open>Dictionaries\<close>

text \<open>
  A Python dict keeps its keys in insertion order: an association list with distinct
  keys. \<^verbatim>\<open>d[k] = v\<close> is \<^const>\<open>AList.update\<close> (an existing key keeps its place, a new
  key goes last), \<^verbatim>\<open>d.get(k)\<close> is \<^const>\<open>map_of\<close>, \<^verbatim>\<open>list(d.keys())\<close> is
  \<^term>\<open>map fst\<close>. A list of optional values stands for a Python list whose entries are
  floats or \<^verbatim>\<open>None\<close>.
\<close>

type_synonym ('k, 'v) dict = "('k \<times> 'v) list"

section \<open>Sheets\<close>

text \<open>
  A \<^verbatim>\<open>DataFrame\<close> read with \<^verbatim>\<open>header=None\<close>: a rectangular grid, given by its shape
  and the scalar at each position.
\<close>

record dataframe =
  shape0 :: nat
  shape1 :: nat
  cells :: "nat \<Rightarrow> nat \<Rightarrow> cell"

definition from_rows :: "nat \<Rightarrow> cell list list \<Rightarrow> dataframe" where
  "from_rows ncols rows =
     \<lparr>shape0 = length rows, shape1 = ncols, cells = (\<lambda>r c. rows ! r ! c)\<rparr>"

text \<open>
  A positional indexer along an axis of size \<open>n\<close>: a negative position counts from the
  end, and a position outside the axis raises IndexError.
\<close>

definition positional :: "nat \<Rightarrow> int \<Rightarrow> exn + nat" where
  "positional n i =
     (let j = (if i < 0 then int n + i else i)
      in if 0 \<le> j \<and> j < int n then Inr (nat j) else Inl IndexError)"

definition iloc :: "dataframe \<Rightarrow> int \<Rightarrow> int \<Rightarrow> exn + cell" where
  "iloc df r c =
     (case positional (shape0 df) r of
        Inl e \<Rightarrow> Inl e
      | Inr i \<Rightarrow>
          (case positional (shape1 df) c of
             Inl e \<Rightarrow> Inl e
           | Inr j \<Rightarrow> Inr (cells df i j)))"

subsection \<open>Locating a column by its header\<close>

text \<open>
  \<^verbatim>\<open>str.lower()\<close> on code points below 256: the ASCII capitals and the Latin-1 capitals
  (all of 192 to 222 but the multiplication sign 215) move up by 32.
\<close>

definition lower_char :: "char \<Rightarrow> char" where
  "lower_char c =
     (let n = (of_char c :: nat)
      in if (65 \<le> n \<and> n \<le> 90) \<or> (192 \<le> n \<and> n \<le> 222 \<and> n \<noteq> 215)
         then char_of (n + 32) else c)"

definition lower :: "string \<Rightarrow> string" where
  "lower s = map lower_char s"

text \<open>\<^verbatim>\<open>x in s\<close> on strings: \<open>x\<close> occurs in \<open>s\<close> as a contiguous run.\<close>

fun str_in :: "string \<Rightarrow> string \<Rightarrow> bool" where
  "str_in x [] = (x = [])"
| "str_in x (c # cs) = (prefix x (c # cs) \<or> str_in x cs)"

text \<open>
  The test of the inner loop:
  \<^verbatim>\<open>isinstance(cell, str) and header_text.lower() in cell.lower()\<close>.
\<close>

fun header_match :: "string \<Rightarrow> cell \<Rightarrow> bool" where
  "header_match header_text (PyStr s) = str_in (lower header_text) (lower s)"
| "header_match header_text (Num n) = False"
| "header_match header_text (NpInt i) = False"
| "header_match header_text (PyOther na) = False"

text \<open>The loop over \<^verbatim>\<open>col_idx\<close> in one row, and the loop over \<^verbatim>\<open>row_idx\<close>.\<close>

fun find_in_row :: "dataframe \<Rightarrow> string \<Rightarrow> nat \<Rightarrow> nat list \<Rightarrow> exn + nat option" where
  "find_in_row df header_text row_idx [] = Inr None"
| "find_in_row df header_text row_idx (col_idx # rest) =
     (case iloc df (int row_idx) (int col_idx) of
        Inl e \<Rightarrow> Inl e
      | Inr cell \<Rightarrow>
          if header_match header_text cell then Inr (Some col_idx)
          else find_in_row df header_text row_idx rest)"

fun find_in_rows :: "dataframe \<Rightarrow> string \<Rightarrow> nat list \<Rightarrow> exn + nat option" where
  "find_in_rows df header_text [] = Inr None"
| "find_in_rows df header_text (row_idx # rest) =
     (case find_in_row df header_text row_idx [0..<shape1 df] of
        Inl e \<Rightarrow> Inl e
      | Inr (Some col_idx) \<Rightarrow> Inr (Some col_idx)
      | Inr None \<Rightarrow> find_in_rows df header_text rest)"

definition find_column_by_header :: "dataframe \<Rightarrow> string \<Rightarrow> exn + nat option" where
  "find_column_by_header df header_text =
     find_in_rows df header_text [0..<min 10 (shape0 df)]"

subsection \<open>Extracting the annual rows\<close>

text \<open>
  One pass of the loop body of \<^verbatim>\<open>_extract_annual_data\<close> at row \<open>row_idx\<close>, on the
  dict built so far.
\<close>

definition extract_row ::
  "dataframe \<Rightarrow> int \<Rightarrow> nat \<Rightarrow> (int, pyfloat) dict \<Rightarrow> exn + (int, pyfloat) dict" where
  "extract_row df col row_idx result =
     (case iloc df (int row_idx) 1 of
        Inl e \<Rightarrow> Inl e
      | Inr year_cell \<Rightarrow>
          (case year_cell of
             Num n \<Rightarrow>
               if notna year_cell then
                 (case py_int n of
                    Inl e \<Rightarrow> Inl e
                  | Inr year \<Rightarrow>
                      if 2008 \<le> year \<and> year \<le> 2035 then
                        (case iloc df (int row_idx) col of
                           Inl e \<Rightarrow> Inl e
                         | Inr val \<Rightarrow>
                             if notna val then
                               (case val of
                                  Num v \<Rightarrow>
                                    (case py_float v of
                                       Inl e \<Rightarrow> Inl e
                                     | Inr f \<Rightarrow> Inr (AList.update year f result))
                                | NpInt i \<Rightarrow> Inr result
                                | PyStr s \<Rightarrow> Inr result
                                | PyOther na \<Rightarrow> Inr result)
                             else Inr result)
                      else Inr result)
               else Inr result
           | NpInt i \<Rightarrow> Inr result
           | PyStr s \<Rightarrow> Inr result
           | PyOther na \<Rightarrow> Inr result))"

fun extract_rows ::
  "dataframe \<Rightarrow> int \<Rightarrow> nat list \<Rightarrow> (int, pyfloat) dict \<Rightarrow> exn + (int, pyfloat) dict" where
  "extract_rows df col [] result = Inr result"
| "extract_rows df col (row_idx # rest) result =
     (case extract_row df col row_idx result of
        Inl e \<Rightarrow> Inl e
      | Inr result' \<Rightarrow> extract_rows df col rest result')"

definition extract_annual_data :: "dataframe \<Rightarrow> int \<Rightarrow> exn + (int, pyfloat) dict" where
  "extract_annual_data df col = extract_rows df col [0..<shape0 df] []"

section \<open>The forecast accessor\<close>

text \<open>The fields of an \<^verbatim>\<open>OBRForecast\<close> object; \<open>data\<close> is \<^verbatim>\<open>self._data\<close>.\<close>

record obr_forecast =
  edition :: string
  cache_dir :: string
  data :: "(string, (int, pyfloat) dict) dict"

text \<open>
  \<^verbatim>\<open>get\<close>: \<^verbatim>\<open>None\<close> when the metric is not a key of \<^verbatim>\<open>self._data\<close>, otherwise
  \<^verbatim>\<open>self._data[metric].get(year)\<close>.
\<close>

definition get :: "obr_forecast \<Rightarrow> string \<Rightarrow> int \<Rightarrow> pyfloat option" where
  "get self metric year =
     (case map_of (data self) metric of
        None \<Rightarrow> None
      | Some series \<Rightarrow> map_of series year)"

definition default_years :: "int list" where
  "default_years = [2025, 2026, 2027, 2028, 2029, 2030]"

text \<open>
  A dict comprehension \<^verbatim>\<open>{y: f(y) for y in years}\<close> assigns the keys in the order of the
  list.
\<close>

fun dict_comp :: "('k \<Rightarrow> 'v) \<Rightarrow> 'k list \<Rightarrow> ('k, 'v) dict \<Rightarrow> ('k, 'v) dict" where
  "dict_comp f [] d = d"
| "dict_comp f (y # ys) d = dict_comp f ys (AList.update y (f y) d)"

definition get_series ::
  "obr_forecast \<Rightarrow> string \<Rightarrow> int list option \<Rightarrow> (int, pyfloat option) dict" where
  "get_series self metric years_arg =
     (let years = (case years_arg of None \<Rightarrow> default_years | Some ys \<Rightarrow> ys) in
      case map_of (data self) metric of
        None \<Rightarrow> dict_comp (\<lambda>y. None) years []
      | Some series \<Rightarrow> dict_comp (\<lambda>y. map_of series y) years [])"

text \<open>\<^verbatim>\<open>available_metrics\<close>: \<^verbatim>\<open>list(self._data.keys())\<close>.\<close>

definition available_metrics :: "obr_forecast \<Rightarrow> string list" where
  "available_metrics self = map fst (data self)"

text \<open>
  The table \<^verbatim>\<open>pd.DataFrame(data, index=years)\<close> built from a dict of lists: one row per
  entry of the index, one column per key of the dict, in the dict's order. Pandas raises
  ValueError when a list is not as long as the index.
\<close>

record frame =
  frame_index :: "int list"
  frame_columns :: "(string, pyfloat option list) dict"

definition pd_DataFrame ::
  "(string, pyfloat option list) dict \<Rightarrow> int list \<Rightarrow> exn + frame" where
  "pd_DataFrame d idx =
     (if list_all (\<lambda>kv. length (snd kv) = length idx) d
      then Inr \<lparr>frame_index = idx, frame_columns = d\<rparr>
      else Inl ValueError)"

text \<open>
  \<^verbatim>\<open>compare_to\<close>: the dict literal assigns the key \<^verbatim>\<open>self.edition\<close> first and the key
  \<^verbatim>\<open>other.edition\<close> second.
\<close>

definition compare_to ::
  "obr_forecast \<Rightarrow> obr_forecast \<Rightarrow> string \<Rightarrow> int list option \<Rightarrow> exn + frame" where
  "compare_to self other metric years_arg =
     (let years = (case years_arg of None \<Rightarrow> default_years | Some ys \<Rightarrow> ys);
          d = AList.update (edition other) (map (get other metric) years)
                (AList.update (edition self) (map (get self metric) years) [])
      in pd_DataFrame d years)"

section \<open>Fetching and loading\<close>

text \<open>
  What the program reads and changes outside itself: the files on disk (path to content),
  the answer of the network to the \<open>n\<close>-th request of the process for a URL, the URLs
  requested so far, which paths can be opened for writing, the sheets pandas decodes from
  a file's content, the platform's temporary directory, and the lines printed.
\<close>

datatype response = Transport_failure | Http (status: int) (content: string)

datatype printed = Warning_could_not_load string exn

record world =
  files :: "string \<rightharpoonup> string"
  net :: "nat \<Rightarrow> string \<Rightarrow> response"
  requests :: "string list"
  writable :: "string \<Rightarrow> bool"
  workbook :: "string \<Rightarrow> string \<Rightarrow> dataframe option"
  tempdir :: string
  stdout :: "printed list"

definition OBR_URLS :: "(string, string) dict" where
  "OBR_URLS =
     [(''november-2025'',
       ''https://obr.uk/docs/dlm_uploads/Economy_Detailed_forecast_tables_November_2025.xlsx''),
      (''march-2025'',
       ''https://obr.uk/docs/dlm_uploads/Economy_Detailed_forecast_tables_March_2025.xlsx'')]"

text \<open>\<^verbatim>\<open>self.cache_dir / f"obr_{self.edition}_economy.xlsx"\<close>; paths are compared as strings.\<close>

definition cache_path_of :: "obr_forecast \<Rightarrow> string" where
  "cache_path_of self = cache_dir self @ ''/'' @ ''obr_'' @ edition self @ ''_economy.xlsx''"

text \<open>
  \<^verbatim>\<open>_get_excel_path\<close>. \<^verbatim>\<open>requests.get\<close> raises on a transport failure,
  \<^verbatim>\<open>raise_for_status\<close> raises on a status from 400 to 599, and opening the cache file
  for writing raises where the path is not writable.
\<close>

definition get_excel_path :: "world \<Rightarrow> obr_forecast \<Rightarrow> (exn + string) \<times> world" where
  "get_excel_path w self =
     (let cache_path = cache_path_of self in
      if files w cache_path = None then
        (case map_of OBR_URLS (edition self) of
           None \<Rightarrow> (Inl ValueError, w)
         | Some url \<Rightarrow>
             if url = [] then (Inl ValueError, w)
             else
               (let w1 = w\<lparr>requests := requests w @ [url]\<rparr> in
                case net w (length (requests w)) url of
                  Transport_failure \<Rightarrow> (Inl ConnectionError, w1)
                | Http st body \<Rightarrow>
                    if 400 \<le> st \<and> st < 600 then (Inl HTTPError, w1)
                    else if \<not> writable w cache_path then (Inl OSError, w1)
                    else (Inr cache_path, w1\<lparr>files := (files w1)(cache_path \<mapsto> body)\<rparr>)))
      else (Inr cache_path, w))"

text \<open>
  \<^verbatim>\<open>pd.read_excel(excel_path, sheet_name=..., header=None)\<close>: any failure to open the
  file, to decode it or to find the sheet is an exception.
\<close>

definition read_excel :: "world \<Rightarrow> string \<Rightarrow> string \<Rightarrow> exn + dataframe" where
  "read_excel w excel_path sheet_name =
     (case files w excel_path of
        None \<Rightarrow> Inl FileNotFoundError
      | Some bytes \<Rightarrow>
          (case workbook w bytes sheet_name of
             None \<Rightarrow> Inl SheetLoadError
           | Some df \<Rightarrow> Inr df))"

definition warn :: "world \<Rightarrow> string \<Rightarrow> exn \<Rightarrow> world" where
  "warn w sheet_name e = w\<lparr>stdout := stdout w @ [Warning_could_not_load sheet_name e]\<rparr>"

definition col_map :: "(string, int) dict" where
  "col_map =
     [(''rpi'', 2), (''cpi'', 4), (''cpih'', 5), (''mortgage_interest'', 7), (''rent'', 8)]"

text \<open>The loop over \<^verbatim>\<open>col_map.items()\<close> of \<^verbatim>\<open>_load_sheet_1_7\<close>.\<close>

fun load_metrics ::
  "dataframe \<Rightarrow> (string \<times> int) list \<Rightarrow> obr_forecast \<Rightarrow> exn + obr_forecast" where
  "load_metrics df [] self = Inr self"
| "load_metrics df ((metric, col) # rest) self =
     (case extract_annual_data df col of
        Inl e \<Rightarrow> Inl e
      | Inr series \<Rightarrow>
          load_metrics df rest (self\<lparr>data := AList.update metric series (data self)\<rparr>))"

definition load_sheet_1_7 ::
  "world \<Rightarrow> obr_forecast \<Rightarrow> string \<Rightarrow> (exn + obr_forecast) \<times> world" where
  "load_sheet_1_7 w self excel_path =
     (case read_excel w excel_path ''1.7'' of
        Inl e \<Rightarrow> (Inr self, warn w ''1.7'' e)
      | Inr df \<Rightarrow> (load_metrics df col_map self, w))"

text \<open>
  The tail shared by \<^verbatim>\<open>_load_sheet_1_6\<close> and \<^verbatim>\<open>_load_sheet_1_16\<close>:
  \<^verbatim>\<open>if col is not None: self._data[metric] = self._extract_annual_data(df, col)\<close>.
\<close>

definition store_column ::
  "dataframe \<Rightarrow> string \<Rightarrow> nat option \<Rightarrow> obr_forecast \<Rightarrow> exn + obr_forecast" where
  "store_column df metric col self =
     (case col of
        None \<Rightarrow> Inr self
      | Some c \<Rightarrow>
          (case extract_annual_data df (int c) of
             Inl e \<Rightarrow> Inl e
           | Inr series \<Rightarrow> Inr (self\<lparr>data := AList.update metric series (data self)\<rparr>)))"

definition load_sheet_1_6 ::
  "world \<Rightarrow> obr_forecast \<Rightarrow> string \<Rightarrow> (exn + obr_forecast) \<times> world" where
  "load_sheet_1_6 w self excel_path =
     (case read_excel w excel_path ''1.6'' of
        Inl e \<Rightarrow> (Inr self, warn w ''1.6'' e)
      | Inr df \<Rightarrow>
          (case find_column_by_header df ''Average weekly earnings growth'' of
             Inl e \<Rightarrow> (Inl e, w)
           | Inr (Some c) \<Rightarrow> (store_column df ''average_earnings'' (Some c) self, w)
           | Inr None \<Rightarrow>
               (case find_column_by_header df ''Average earnings growth'' of
                  Inl e \<Rightarrow> (Inl e, w)
                | Inr col \<Rightarrow> (store_column df ''average_earnings'' col self, w))))"

definition load_sheet_1_16 ::
  "world \<Rightarrow> obr_forecast \<Rightarrow> string \<Rightarrow> (exn + obr_forecast) \<times> world" where
  "load_sheet_1_16 w self excel_path =
     (case read_excel w excel_path ''1.16'' of
        Inl e \<Rightarrow> (Inr self, warn w ''1.16'' e)
      | Inr df \<Rightarrow>
          (case find_column_by_header df ''per cent change'' of
             Inl e \<Rightarrow> (Inl e, w)
           | Inr col \<Rightarrow> (store_column df ''house_prices'' col self, w)))"

text \<open>\<^verbatim>\<open>_load_data\<close>: the path, then the three sheets in turn; an exception ends it.\<close>

definition load_data :: "world \<Rightarrow> obr_forecast \<Rightarrow> (exn + obr_forecast) \<times> world" where
  "load_data w self =
     (case get_excel_path w self of
        (Inl e, w1) \<Rightarrow> (Inl e, w1)
      | (Inr excel_path, w1) \<Rightarrow>
          (case load_sheet_1_7 w1 self excel_path of
             (Inl e, w2) \<Rightarrow> (Inl e, w2)
           | (Inr self2, w2) \<Rightarrow>
               (case load_sheet_1_6 w2 self2 excel_path of
                  (Inl e, w3) \<Rightarrow> (Inl e, w3)
                | (Inr self3, w3) \<Rightarrow> load_sheet_1_16 w3 self3 excel_path)))"


section \<open>The specification's notions\<close>

text \<open>
  The column the specification's \<open>find_column\<close> returns: the cells of the first ten rows
  (fewer when the sheet is shorter) and of all columns are listed row by row, and the
  column of the first cell that matches is the answer.
\<close>

definition find_column_spec :: "dataframe \<Rightarrow> string \<Rightarrow> nat option" where
  "find_column_spec df header_text =
     map_option snd
       (find (\<lambda>(r, c). header_match header_text (cells df r c))
          (List.product [0..<min 10 (shape0 df)] [0..<shape1 df]))"

text \<open>
  The specification's word "numeric" is about the value a cell holds, not about its
  Python class: a cell is numeric when it holds a number, and \<open>as_number\<close> is that
  number. A \<^verbatim>\<open>numpy.int64\<close> cell is numeric in this sense.
\<close>

fun as_number :: "cell \<Rightarrow> pynum option" where
  "as_number (Num n) = Some n"
| "as_number (NpInt i) = Some (PyInt i)"
| "as_number (PyStr s) = None"
| "as_number (PyOther na) = None"

text \<open>
  A row is an annual-summary row for the year \<open>y\<close> when its year cell is numeric, not
  missing, and truncates to \<open>y\<close> within 2008 to 2035.
\<close>

definition annual_year :: "cell \<Rightarrow> int option" where
  "annual_year c =
     (case as_number c of
        None \<Rightarrow> None
      | Some n \<Rightarrow>
          if notna c then
            (case py_int n of
               Inl e \<Rightarrow> None
             | Inr y \<Rightarrow> if 2008 \<le> y \<and> y \<le> 2035 then Some y else None)
          else None)"

text \<open>
  The float recorded for a value cell that is numeric and not missing: \<^verbatim>\<open>float\<close> of the
  number it holds.
\<close>

definition numeric_value :: "cell \<Rightarrow> pyfloat option" where
  "numeric_value c =
     (case as_number c of
        None \<Rightarrow> None
      | Some v \<Rightarrow>
          if notna c then (case py_float v of Inl e \<Rightarrow> None | Inr f \<Rightarrow> Some f)
          else None)"

text \<open>The pair that row \<open>r\<close> contributes, with the value column at position \<open>j\<close>.\<close>

definition annual_entry :: "dataframe \<Rightarrow> nat \<Rightarrow> nat \<Rightarrow> (int \<times> pyfloat) option" where
  "annual_entry df j r =
     (case annual_year (cells df r 1) of
        None \<Rightarrow> None
      | Some y \<Rightarrow>
          (case numeric_value (cells df r j) of
             None \<Rightarrow> None
           | Some v \<Rightarrow> Some (y, v)))"

text \<open>Among the first \<open>n\<close> rows, the last one that contributes the year \<open>y\<close> gives \<open>v\<close>.\<close>

definition last_entry :: "dataframe \<Rightarrow> nat \<Rightarrow> nat \<Rightarrow> int \<Rightarrow> pyfloat \<Rightarrow> bool" where
  "last_entry df j n y v \<longleftrightarrow>
     (\<exists>r<n. annual_entry df j r = Some (y, v) \<and>
        (\<forall>r'. r < r' \<and> r' < n \<longrightarrow> (\<forall>v'. annual_entry df j r' \<noteq> Some (y, v'))))"

text \<open>
  A later world of the same loading run: the files and the decoding of workbooks are
  unchanged, and nothing printed has been lost.
\<close>

definition same_book :: "world \<Rightarrow> world \<Rightarrow> bool" where
  "same_book w w' \<longleftrightarrow>
     files w' = files w \<and> workbook w' = workbook w \<and> set (stdout w) \<subseteq> set (stdout w')"

text \<open>
  The calls of \<^verbatim>\<open>_load_data\<close> that follow the fetch step: sheet 1.6 then sheet 1.16, and
  sheet 1.7 before them.
\<close>

definition load_tail :: "world \<Rightarrow> obr_forecast \<Rightarrow> string \<Rightarrow> (exn + obr_forecast) \<times> world" where
  "load_tail w2 self2 p =
     (case load_sheet_1_6 w2 self2 p of
        (Inl e, w3) \<Rightarrow> (Inl e, w3)
      | (Inr self3, w3) \<Rightarrow> load_sheet_1_16 w3 self3 p)"

definition load_sheets :: "world \<Rightarrow> obr_forecast \<Rightarrow> string \<Rightarrow> (exn + obr_forecast) \<times> world" where
  "load_sheets w1 self p =
     (case load_sheet_1_7 w1 self p of
        (Inl e, w2) \<Rightarrow> (Inl e, w2)
      | (Inr self2, w2) \<Rightarrow> load_tail w2 self2 p)"

section \<open>Sample inputs\<close>

definition march_sample :: obr_forecast where
  "march_sample =
     \<lparr>edition = ''march-2025'', cache_dir = ''/tmp'',
      data = [(''cpi'', [(2025, Finite 3.21), (2026, Finite 2.08)]),
              (''mortgage_interest'', [(2025, Finite 14.17), (2029, Finite 4.5)])]\<rparr>"

definition november_sample :: obr_forecast where
  "november_sample =
     \<lparr>edition = ''november-2025'', cache_dir = ''/tmp'',
      data = [(''cpi'', [(2025, Finite 3.45), (2026, Finite 2.48), (2030, Finite 2)])]\<rparr>"

definition june_sample :: obr_forecast where
  "june_sample = \<lparr>edition = ''june-2024'', cache_dir = ''/tmp'', data = []\<rparr>"

definition march_empty :: obr_forecast where
  "march_empty = \<lparr>edition = ''march-2025'', cache_dir = ''/tmp'', data = []\<rparr>"

text \<open>
  A sheet in the layout of table 1.7: a header row, a quarterly row, annual rows (2025
  twice, 2026 with a missing CPI value), and a row outside the year range.
\<close>

definition sheet_sample :: dataframe where
  "sheet_sample = from_rows 5
     [[PyStr '''', PyStr ''Period'', PyStr ''RPI'', PyOther True, PyStr ''CPI (Per Cent change)''],
      [PyOther True, PyStr ''2025Q1'', Num (PyFloat (Finite 3.1)), PyOther True,
       Num (PyFloat (Finite 2.8))],
      [PyOther True, Num (PyInt 2025), Num (PyFloat (Finite 4.33)), PyOther True,
       Num (PyFloat (Finite 3.45))],
      [PyOther True, Num (PyFloat (Finite 2026)), Num (PyInt 4), PyOther True,
       Num (PyFloat NaN)],
      [PyOther True, Num (PyInt 2025), Num (PyFloat (Finite 9)), PyOther True, PyStr ''x''],
      [PyOther True, Num (PyInt 2050), Num (PyFloat (Finite 9)), PyOther True, PyStr ''x'']]"

text \<open>
  A sheet whose year column holds integers only, so that pandas gives it dtype int64,
  and a sheet whose value is an int of more than 53 bits.
\<close>

definition int64_sample :: dataframe where
  "int64_sample = from_rows 3
     [[PyOther True, NpInt 2025, Num (PyFloat (Finite 3.45))],
      [PyOther True, NpInt 2026, Num (PyFloat (Finite 2.48))]]"

definition big_int_sample :: dataframe where
  "big_int_sample = from_rows 3
     [[PyOther True, Num (PyInt 2025), Num (PyInt 9007199254740993)]]"

text \<open>A sheet of three columns with one annual row.\<close>

definition narrow_sample :: dataframe where
  "narrow_sample = from_rows 3
     [[PyOther True, Num (PyInt 2025), Num (PyFloat (Finite 3.45))]]"

definition no_sheets :: "string \<Rightarrow> string \<Rightarrow> dataframe option" where
  "no_sheets bytes sheet_name = None"

text \<open>
  Three worlds: one with a cache file for an edition outside the registry, one whose
  server answers 500, one whose server answers 200.
\<close>

definition cached_world :: world where
  "cached_world =
     \<lparr>files = [''/tmp/obr_june-2024_economy.xlsx'' \<mapsto> ''PK''],
      net = (\<lambda>n url. Transport_failure), requests = [], writable = (\<lambda>path. True),
      workbook = no_sheets, tempdir = ''/tmp'', stdout = []\<rparr>"

definition failing_world :: world where
  "failing_world =
     \<lparr>files = Map.empty,
      net = (\<lambda>n url. Http 500 ''''), requests = [], writable = (\<lambda>path. True),
      workbook = no_sheets, tempdir = ''/tmp'', stdout = []\<rparr>"

definition serving_world :: world where
  "serving_world =
     \<lparr>files = Map.empty,
      net = (\<lambda>n url. Http 200 ''PK''), requests = [], writable = (\<lambda>path. True),
      workbook = no_sheets, tempdir = ''/tmp'', stdout = []\<rparr>"





section \<open>Point lookup and series lookup\<close>

text \<open>
  C1. When the metric is not among the loaded metrics, or the year is not a key of the
  metric's series, \<open>get\<close> returns \<open>None\<close>: not zero, and (being a total function with no
  error result) no exception.
\<close>

theorem get_absent:
  assumes "metric \<notin> fst ` set (data self) \<or>
           (\<forall>series. (metric, series) \<in> set (data self) \<longrightarrow> year \<notin> fst ` set series)"
  shows "get self metric year = None \<and> get self metric year \<noteq> Some (Finite 0)"
proof -
  have "get self metric year = None"
  proof (cases "map_of (data self) metric")
    case None
    then show ?thesis by (simp add: get_def)
  next
    case (Some series)
    then have mem: "(metric, series) \<in> set (data self)" by (rule map_of_SomeD)
    then have "metric \<in> fst ` set (data self)" by force
    with assms mem have "year \<notin> fst ` set series" by blast
    then have "map_of series year = None" by (simp add: map_of_eq_None_iff)
    with Some show ?thesis by (simp add: get_def)
  qed
  then show ?thesis by simp
qed

theorem get_absent_witness:
  "get march_sample ''rpi'' 2025 = None \<and> get march_sample ''mortgage_interest'' 2030 = None"
proof -
  have a: "get march_sample ''rpi'' 2025 = None"
    using get_absent [of "''rpi''" march_sample 2025] by (simp add: march_sample_def)
  have b: "get march_sample ''mortgage_interest'' 2030 = None"
    using get_absent [of "''mortgage_interest''" march_sample 2030]
    by (auto simp add: march_sample_def)
  from a b show ?thesis by simp
qed

lemma dict_comp_keys: "fst ` set (dict_comp f ys d) = set ys \<union> fst ` set d"
  by (induction ys arbitrary: d) (auto simp add: dom_update)

lemma dict_comp_distinct: "distinct (map fst d) \<Longrightarrow> distinct (map fst (dict_comp f ys d))"
  by (induction ys arbitrary: d) (auto simp add: distinct_update)

lemma dict_comp_lookup:
  "map_of (dict_comp f ys d) y = (if y \<in> set ys then Some (f y) else map_of d y)"
  by (induction ys arbitrary: d) (auto simp add: update_conv')

lemma get_series_eq:
  "get_series self metric years_arg =
     dict_comp (get self metric) (case years_arg of None \<Rightarrow> default_years | Some ys \<Rightarrow> ys) []"
proof (cases "map_of (data self) metric")
  case None
  then have "get self metric = (\<lambda>y. None)" by (simp add: get_def fun_eq_iff)
  with None show ?thesis by (simp add: get_series_def)
next
  case (Some series)
  then have "get self metric = (\<lambda>y. map_of series y)" by (simp add: get_def fun_eq_iff)
  with Some show ?thesis by (simp add: get_series_def)
qed

text \<open>
  C9. \<open>get_series\<close> returns a dict whose keys are exactly the requested years, each mapped
  to what \<open>get\<close> returns for that year (a value or \<open>None\<close>); with no list of years it
  uses 2025 to 2030.
\<close>

theorem get_series_total:
  "fst ` set (get_series self metric (Some years)) = set years \<and>
   distinct (map fst (get_series self metric (Some years))) \<and>
   (\<forall>y \<in> set years. map_of (get_series self metric (Some years)) y = Some (get self metric y)) \<and>
   get_series self metric None = get_series self metric (Some [2025, 2026, 2027, 2028, 2029, 2030])"
  by (simp add: get_series_eq dict_comp_keys dict_comp_distinct dict_comp_lookup default_years_def)

theorem get_series_total_witness:
  "get_series march_sample ''cpi'' (Some [2026, 2027, 2026]) = [(2026, Some (Finite 2.08)), (2027, None)] \<and>
   map_of (get_series march_sample ''cpi'' (Some [2026, 2027, 2026])) 2027 = Some (get march_sample ''cpi'' 2027)"
proof -
  have "2027 \<in> set [2026, 2027, 2026 :: int]" by simp
  with get_series_total [of march_sample "''cpi''" "[2026, 2027, 2026]"]
  have "map_of (get_series march_sample ''cpi'' (Some [2026, 2027, 2026])) 2027 = Some (get march_sample ''cpi'' 2027)"
    by blast
  moreover have "get_series march_sample ''cpi'' (Some [2026, 2027, 2026]) = [(2026, Some (Finite 2.08)), (2027, None)]"
    by (simp add: get_series_def march_sample_def)
  ultimately show ?thesis by simp
qed

text \<open>
  C10. \<open>available_metrics\<close> lists exactly the metrics with a loaded series; \<open>get\<close> returns
  a value only for a listed metric; for a metric that is not listed \<open>get\<close> returns \<open>None\<close>
  for every year and \<open>get_series\<close> maps every requested year to \<open>None\<close>.
\<close>

theorem available_metrics_agree:
  "set (available_metrics self) = {m. \<exists>series. map_of (data self) m = Some series} \<and>
   (get self metric year \<noteq> None \<longrightarrow> metric \<in> set (available_metrics self)) \<and>
   (metric \<notin> set (available_metrics self) \<longrightarrow>
      (\<forall>y. get self metric y = None) \<and>
      fst ` set (get_series self metric (Some years)) = set years \<and>
      (\<forall>y \<in> set years. map_of (get_series self metric (Some years)) y = Some None))"
proof -
  have keys: "set (available_metrics self) = {m. \<exists>series. map_of (data self) m = Some series}"
  proof -
    have "fst ` set (data self) = dom (map_of (data self))"
      by (simp add: dom_map_of_conv_image_fst)
    then show ?thesis by (auto simp add: available_metrics_def dom_def)
  qed
  have absent: "get self metric y = None" if "metric \<notin> set (available_metrics self)" for y
    using that keys by (auto simp add: get_def split: option.splits)
  have present: "metric \<in> set (available_metrics self)" if "get self metric year \<noteq> None"
  proof (rule ccontr)
    assume "metric \<notin> set (available_metrics self)"
    then have "get self metric year = None" by (rule absent)
    with that show False by simp
  qed
  show ?thesis
    using keys present absent
    by (simp add: get_series_eq dict_comp_keys dict_comp_lookup)
qed

theorem available_metrics_agree_witness:
  "available_metrics march_sample = [''cpi'', ''mortgage_interest''] \<and>
   get march_sample ''rpi'' 2025 = None \<and>
   map_of (get_series march_sample ''rpi'' (Some [2025, 2026])) 2026 = Some None"
proof -
  have listed: "available_metrics march_sample = [''cpi'', ''mortgage_interest'']"
    by (simp add: available_metrics_def march_sample_def)
  then have out: "''rpi'' \<notin> set (available_metrics march_sample)" by simp
  have "2026 \<in> set [2025, 2026 :: int]" by simp
  with available_metrics_agree [of march_sample "''rpi''" 2025 "[2025, 2026]"] out listed
  show ?thesis by blast
qed

section \<open>Locating a column\<close>

lemma str_in_sublist: "str_in x s = sublist x s"
  by (induction s) (simp_all add: sublist_Cons_right)

lemma header_match_iff:
  "header_match header_text cell \<longleftrightarrow>
     (\<exists>s. cell = PyStr s \<and> sublist (lower header_text) (lower s))"
  by (cases cell) (simp_all add: str_in_sublist)

lemma iloc_in_range:
  "r < shape0 df \<Longrightarrow> c < shape1 df \<Longrightarrow> iloc df (int r) (int c) = Inr (cells df r c)"
  by (simp add: iloc_def positional_def)

lemma find_in_row_eq:
  "r < shape0 df \<Longrightarrow> \<forall>c \<in> set cs. c < shape1 df \<Longrightarrow>
   find_in_row df h r cs = Inr (find (\<lambda>c. header_match h (cells df r c)) cs)"
  by (induction cs) (simp_all add: iloc_in_range)

lemma find_append_case:
  "find P (xs @ ys) = (case find P xs of None \<Rightarrow> find P ys | Some x \<Rightarrow> Some x)"
  by (induction xs) simp_all

lemma find_map_option: "find P (map f xs) = map_option f (find (\<lambda>x. P (f x)) xs)"
  by (induction xs) simp_all

lemma find_in_rows_eq:
  "\<forall>r \<in> set rs. r < shape0 df \<Longrightarrow>
   find_in_rows df h rs =
     Inr (map_option snd
            (find (\<lambda>(r, c). header_match h (cells df r c)) (List.product rs [0..<shape1 df])))"
proof (induction rs)
  case Nil
  then show ?case by simp
next
  case (Cons r rs)
  have row: "find_in_row df h r [0..<shape1 df] =
               Inr (find (\<lambda>c. header_match h (cells df r c)) [0..<shape1 df])"
    using Cons.prems by (intro find_in_row_eq) simp_all
  have pairs: "find (\<lambda>(r, c). header_match h (cells df r c)) (map (Pair r) [0..<shape1 df]) =
                 map_option (Pair r) (find (\<lambda>c. header_match h (cells df r c)) [0..<shape1 df])"
    by (simp add: find_map_option)
  show ?case
    using Cons row pairs
    by (simp add: find_append_case split: option.splits)
qed

lemma find_upt_Some:
  "find P [0..<n] = Some c \<longleftrightarrow> c < n \<and> P c \<and> (\<forall>c'<c. \<not> P c')"
proof (induction n arbitrary: c)
  case 0
  then show ?case by simp
next
  case (Suc n)
  show ?case
  proof (cases "find P [0..<n]")
    case None
    then have no: "\<forall>c'<n. \<not> P c'" by (auto simp add: find_None_iff)
    show ?thesis
    proof (cases "P n")
      case True
      with None no show ?thesis
        by (auto simp add: find_append_case less_Suc_eq)
    next
      case False
      with None no show ?thesis
        by (auto simp add: find_append_case less_Suc_eq)
    qed
  next
    case (Some d)
    with Suc.IH [of d] have d: "d < n" "P d" "\<forall>c'<d. \<not> P c'" by simp_all
    show ?thesis
    proof
      assume "find P [0..<Suc n] = Some c"
      with Some have "c = d" by (simp add: find_append_case)
      with d show "c < Suc n \<and> P c \<and> (\<forall>c'<c. \<not> P c')" by simp
    next
      assume c: "c < Suc n \<and> P c \<and> (\<forall>c'<c. \<not> P c')"
      with d have "c = d" by (metis not_less_iff_gr_or_eq)
      with Some show "find P [0..<Suc n] = Some c" by (simp add: find_append_case)
    qed
  qed
qed

lemma product_append: "List.product (xs @ ys) zs = List.product xs zs @ List.product ys zs"
  by (induction xs) simp_all

lemma find_grid_Some:
  "find P (List.product [0..<m] [0..<n]) = Some (r, c) \<longleftrightarrow>
     r < m \<and> c < n \<and> P (r, c) \<and>
     (\<forall>r' c'. r' < m \<and> c' < n \<and> (r' < r \<or> (r' = r \<and> c' < c)) \<longrightarrow> \<not> P (r', c'))"
proof (induction m arbitrary: r c)
  case 0
  then show ?case by simp
next
  case (Suc m)
  have row: "find P (map (Pair m) [0..<n]) = Some (r, c) \<longleftrightarrow>
               r = m \<and> c < n \<and> P (m, c) \<and> (\<forall>c'<c. \<not> P (m, c'))"
    by (auto simp add: find_map_option find_upt_Some)
  show ?case
  proof (cases "find P (List.product [0..<m] [0..<n])")
    case None
    then have no: "\<forall>r' c'. r' < m \<and> c' < n \<longrightarrow> \<not> P (r', c')"
      by (auto simp add: find_None_iff)
    have "find P (List.product [0..<Suc m] [0..<n]) = find P (map (Pair m) [0..<n])"
      using None by (simp add: product_append find_append_case)
    also have "\<dots> = Some (r, c) \<longleftrightarrow>
        r < Suc m \<and> c < n \<and> P (r, c) \<and>
        (\<forall>r' c'. r' < Suc m \<and> c' < n \<and> (r' < r \<or> (r' = r \<and> c' < c)) \<longrightarrow> \<not> P (r', c'))"
      unfolding row using no by (auto simp add: less_Suc_eq)
    finally show ?thesis .
  next
    case (Some q)
    obtain r0 c0 where q: "q = (r0, c0)" by (cases q)
    from Some q Suc.IH [of r0 c0] have q0: "r0 < m" "c0 < n" "P (r0, c0)"
      "\<forall>r' c'. r' < m \<and> c' < n \<and> (r' < r0 \<or> (r' = r0 \<and> c' < c0)) \<longrightarrow> \<not> P (r', c')"
      by simp_all
    have run: "find P (List.product [0..<Suc m] [0..<n]) = Some (r0, c0)"
      using Some q by (simp add: product_append find_append_case)
    show ?thesis
    proof
      assume "find P (List.product [0..<Suc m] [0..<n]) = Some (r, c)"
      with run have "r = r0" "c = c0" by simp_all
      with q0 show "r < Suc m \<and> c < n \<and> P (r, c) \<and>
        (\<forall>r' c'. r' < Suc m \<and> c' < n \<and> (r' < r \<or> (r' = r \<and> c' < c)) \<longrightarrow> \<not> P (r', c'))"
        by auto
    next
      assume a: "r < Suc m \<and> c < n \<and> P (r, c) \<and>
        (\<forall>r' c'. r' < Suc m \<and> c' < n \<and> (r' < r \<or> (r' = r \<and> c' < c)) \<longrightarrow> \<not> P (r', c'))"
      have "\<not> r0 < r" using a q0 by (auto simp add: less_Suc_eq)
      moreover have "\<not> r < r0" using a q0 by auto
      ultimately have r: "r = r0" by simp
      have "\<not> c0 < c" using a q0 r by (auto simp add: less_Suc_eq)
      moreover have "\<not> c < c0" using a q0 r by auto
      ultimately have "c = c0" by simp
      with r run show "find P (List.product [0..<Suc m] [0..<n]) = Some (r, c)" by simp
    qed
  qed
qed

lemma find_column_spec_None:
  "find_column_spec df h = None \<longleftrightarrow>
     (\<forall>r<min 10 (shape0 df). \<forall>c<shape1 df. \<not> header_match h (cells df r c))"
  by (auto simp add: find_column_spec_def find_None_iff)

lemma find_column_spec_Some:
  "find_column_spec df h = Some c \<longleftrightarrow>
     (\<exists>r<min 10 (shape0 df). c < shape1 df \<and> header_match h (cells df r c) \<and>
        (\<forall>r' c'. r' < min 10 (shape0 df) \<and> c' < shape1 df \<and> (r' < r \<or> (r' = r \<and> c' < c))
           \<longrightarrow> \<not> header_match h (cells df r' c')))"
proof -
  let ?P = "\<lambda>(r, c). header_match h (cells df r c)"
  let ?xs = "List.product [0..<min 10 (shape0 df)] [0..<shape1 df]"
  have "find_column_spec df h = Some c \<longleftrightarrow> (\<exists>r. find ?P ?xs = Some (r, c))"
    by (auto simp add: find_column_spec_def)
  also have "\<dots> \<longleftrightarrow> (\<exists>r<min 10 (shape0 df). c < shape1 df \<and> header_match h (cells df r c) \<and>
        (\<forall>r' c'. r' < min 10 (shape0 df) \<and> c' < shape1 df \<and> (r' < r \<or> (r' = r \<and> c' < c))
           \<longrightarrow> \<not> header_match h (cells df r' c')))"
    unfolding find_grid_Some by simp
  finally show ?thesis .
qed

text \<open>
  C6. \<open>find_column_by_header\<close> raises nothing and returns what the specification's
  search returns. It returns \<open>None\<close> exactly when no cell in the first ten rows (fewer
  when the sheet is shorter) and all columns matches, and it returns a column exactly
  when a cell of that column in that region matches and no cell before it in row-major
  order does. A cell matches exactly when it is a string whose lowercased text contains
  the lowercased header text.
\<close>

theorem find_column_first_match:
  "find_column_by_header df header_text = Inr (find_column_spec df header_text) \<and>
   (find_column_by_header df header_text = Inr None \<longleftrightarrow>
      (\<forall>r<min 10 (shape0 df). \<forall>c<shape1 df. \<not> header_match header_text (cells df r c))) \<and>
   (find_column_by_header df header_text = Inr (Some col) \<longleftrightarrow>
      (\<exists>r<min 10 (shape0 df). col < shape1 df \<and> header_match header_text (cells df r col) \<and>
         (\<forall>r' c'. r' < min 10 (shape0 df) \<and> c' < shape1 df \<and> (r' < r \<or> (r' = r \<and> c' < col))
            \<longrightarrow> \<not> header_match header_text (cells df r' c')))) \<and>
   (header_match header_text cell \<longleftrightarrow>
      (\<exists>s. cell = PyStr s \<and> sublist (lower header_text) (lower s)))"
proof -
  have run: "find_column_by_header df header_text = Inr (find_column_spec df header_text)"
    unfolding find_column_by_header_def find_column_spec_def by (simp add: find_in_rows_eq)
  show ?thesis
    unfolding run sum.inject find_column_spec_None find_column_spec_Some
    using header_match_iff [of header_text cell] by simp
qed

theorem find_column_first_match_witness:
  "find_column_by_header sheet_sample ''per cent change'' = Inr (Some 4) \<and>
   find_column_by_header sheet_sample ''rpi'' = Inr (Some 2) \<and>
   find_column_by_header sheet_sample ''Average earnings growth'' = Inr None"
proof -
  have a: "find_column_spec sheet_sample ''per cent change'' = Some 4" by code_simp
  have b: "find_column_spec sheet_sample ''rpi'' = Some 2" by code_simp
  have c: "find_column_spec sheet_sample ''Average earnings growth'' = None" by code_simp
  from find_column_first_match [of sheet_sample "''per cent change''"]
       find_column_first_match [of sheet_sample "''rpi''"]
       find_column_first_match [of sheet_sample "''Average earnings growth''"]
       a b c
  show ?thesis by simp
qed

section \<open>Extracting the annual series\<close>

lemma bit_length_bound: "0 \<le> a \<Longrightarrow> a < 2 ^ k \<Longrightarrow> bit_length a \<le> k"
proof (induction k arbitrary: a)
  case 0
  then have "a = 0" by simp
  then show ?case by simp
next
  case (Suc k)
  show ?case
  proof (cases "a \<le> 0")
    case True
    then show ?thesis by simp
  next
    case False
    from Suc.prems have "0 \<le> a div 2" "a div 2 < 2 ^ k" by simp_all
    then have "bit_length (a div 2) \<le> k" by (rule Suc.IH)
    with False show ?thesis by (subst bit_length.simps) simp
  qed
qed

lemma round_to_double_small: "\<bar>i\<bar> < 2 ^ 53 \<Longrightarrow> round_to_double i = i"
  using bit_length_bound [of "\<bar>i\<bar>" 53] by (simp add: round_to_double_def Let_def)

lemmas sheet_eval =
  sheet_sample_def narrow_sample_def int64_sample_def from_rows_def extract_annual_data_def
  extract_row_def iloc_def positional_def upt_rec float_overflow_bound_def
  round_to_double_small

lemma extract_row_cases:
  "extract_row df col r result = Inr result' \<Longrightarrow>
   result' = result \<or> (\<exists>y v. 2008 \<le> y \<and> y \<le> 2035 \<and> result' = AList.update y v result)"
  unfolding extract_row_def
  by (auto split: sum.splits cell.splits if_splits)

lemma extract_row_keys:
  assumes "extract_row df col r result = Inr result'"
    and "fst ` set result \<subseteq> {2008..2035}"
  shows "fst ` set result' \<subseteq> {2008..2035}"
proof -
  from assms(1) consider "result' = result"
    | y v where "2008 \<le> y" "y \<le> 2035" "result' = AList.update y v result"
    using extract_row_cases by blast
  then show ?thesis
  proof cases
    case 1
    with assms(2) show ?thesis by simp
  next
    case 2
    then have "fst ` set result' = {y} \<union> fst ` set result" by (simp add: dom_update)
    with 2 assms(2) show ?thesis by simp
  qed
qed

lemma extract_rows_keys:
  "extract_rows df col rs result = Inr result' \<Longrightarrow>
   fst ` set result \<subseteq> {2008..2035} \<Longrightarrow> fst ` set result' \<subseteq> {2008..2035}"
proof (induction rs arbitrary: result)
  case Nil
  then show ?case by simp
next
  case (Cons r rs)
  from Cons.prems(1) obtain mid where
    step: "extract_row df col r result = Inr mid" and
    rest: "extract_rows df col rs mid = Inr result'"
    by (auto split: sum.splits)
  from step Cons.prems(2) have "fst ` set mid \<subseteq> {2008..2035}" by (rule extract_row_keys)
  with rest show ?case by (rule Cons.IH)
qed

text \<open>
  C5. Every year key of a dict that \<open>extract_annual_data\<close> returns lies between 2008 and
  2035.
\<close>

theorem extract_keys_in_range:
  "extract_annual_data df col = Inr result \<Longrightarrow> fst ` set result \<subseteq> {2008..2035}"
  unfolding extract_annual_data_def by (erule extract_rows_keys) simp

theorem extract_keys_in_range_witness:
  "extract_annual_data sheet_sample 2 = Inr [(2025, Finite 9), (2026, Finite 4)] \<and>
   fst ` set [(2025, Finite 9), (2026, Finite 4)] \<subseteq> {2008..2035::int}"
proof -
  have run: "extract_annual_data sheet_sample 2 = Inr [(2025, Finite 9), (2026, Finite 4)]"
    by (simp add: sheet_eval)
  from extract_keys_in_range [OF run] run show ?thesis by simp
qed

lemma iloc_year:
  "r < shape0 df \<Longrightarrow> 1 < shape1 df \<Longrightarrow> iloc df (int r) 1 = Inr (cells df r 1)"
  by (simp add: iloc_def positional_def)

lemma iloc_value:
  "r < shape0 df \<Longrightarrow> positional (shape1 df) col = Inr j \<Longrightarrow>
   iloc df (int r) col = Inr (cells df r j)"
  by (simp add: iloc_def positional_def)

lemma py_int_ok:
  "n \<noteq> PyFloat PInf \<Longrightarrow> n \<noteq> PyFloat NInf \<Longrightarrow> notna (Num n) \<Longrightarrow> \<exists>y. py_int n = Inr y"
  by (cases n rule: py_int.cases) simp_all

lemma extract_row_entry:
  assumes "r < shape0 df" and "1 < shape1 df" and "positional (shape1 df) col = Inr j"
    and "cells df r 1 \<noteq> Num (PyFloat PInf)" and "cells df r 1 \<noteq> Num (PyFloat NInf)"
    and "\<forall>i. cells df r j = Num (PyInt i) \<longrightarrow> \<bar>i\<bar> < float_overflow_bound"
    and "\<forall>i. cells df r 1 \<noteq> NpInt i" and "\<forall>i. cells df r j \<noteq> NpInt i"
  shows "extract_row df col r result =
           Inr (case annual_entry df j r of
                  None \<Rightarrow> result
                | Some (y, v) \<Rightarrow> AList.update y v result)"
proof (cases "cells df r 1")
  case (Num n)
  show ?thesis
  proof (cases "notna (Num n)")
    case False
    with Num assms show ?thesis
      by (simp add: extract_row_def iloc_year annual_entry_def annual_year_def)
  next
    case True
    with Num assms obtain y where y: "py_int n = Inr y"
      using py_int_ok [of n] by auto
    show ?thesis
    proof (cases "2008 \<le> y \<and> y \<le> 2035")
      case False
      then have out: "(2008 \<le> y \<and> y \<le> 2035) = False" by simp
      from Num True y assms show ?thesis
        by (simp add: extract_row_def iloc_year annual_entry_def annual_year_def out)
    next
      case inrange: True
      have yr: "annual_year (cells df r 1) = Some y"
        using Num True y inrange by (simp add: annual_year_def)
      show ?thesis
      proof (cases "cells df r j")
        case val: (Num v)
        show ?thesis
        proof (cases v)
          case (PyInt i)
          with val assms(6) have "\<not> float_overflow_bound \<le> \<bar>i\<bar>" by auto
          with Num True y inrange val PyInt assms yr show ?thesis
            by (simp add: extract_row_def iloc_year iloc_value annual_entry_def numeric_value_def)
        next
          case (PyBool b)
          with Num True y inrange val assms yr show ?thesis
            by (simp add: extract_row_def iloc_year iloc_value annual_entry_def numeric_value_def)
        next
          case (PyFloat f)
          with Num True y inrange val assms yr show ?thesis
            by (simp add: extract_row_def iloc_year iloc_value annual_entry_def numeric_value_def)
        qed
      next
        case (NpInt i)
        with assms(8) show ?thesis by simp
      next
        case (PyStr s)
        with Num True y inrange assms yr show ?thesis
          by (simp add: extract_row_def iloc_year iloc_value annual_entry_def numeric_value_def)
      next
        case (PyOther na)
        with Num True y inrange assms yr show ?thesis
          by (simp add: extract_row_def iloc_year iloc_value annual_entry_def numeric_value_def)
      qed
    qed
  qed
next
  case (NpInt i)
  with assms(7) show ?thesis by simp
next
  case (PyStr s)
  with assms show ?thesis
    by (simp add: extract_row_def iloc_year annual_entry_def annual_year_def)
next
  case (PyOther na)
  with assms show ?thesis
    by (simp add: extract_row_def iloc_year annual_entry_def annual_year_def)
qed


lemma extract_rows_append:
  "extract_rows df col (xs @ ys) result =
     (case extract_rows df col xs result of
        Inl e \<Rightarrow> Inl e
      | Inr mid \<Rightarrow> extract_rows df col ys mid)"
  by (induction xs arbitrary: result) (simp_all split: sum.splits)

lemma last_entry_Suc_None:
  assumes "annual_entry df j n = None"
  shows "last_entry df j (Suc n) y v = last_entry df j n y v"
proof
  assume "last_entry df j (Suc n) y v"
  then obtain r where r: "r < Suc n" "annual_entry df j r = Some (y, v)"
    "\<forall>r'. r < r' \<and> r' < Suc n \<longrightarrow> (\<forall>v'. annual_entry df j r' \<noteq> Some (y, v'))"
    unfolding last_entry_def by blast
  from r(2) assms have "r \<noteq> n" by auto
  with r(1) have "r < n" by simp
  moreover from r(3) have "\<forall>r'. r < r' \<and> r' < n \<longrightarrow> (\<forall>v'. annual_entry df j r' \<noteq> Some (y, v'))"
    by simp
  ultimately show "last_entry df j n y v" unfolding last_entry_def using r(2) by blast
next
  assume "last_entry df j n y v"
  then obtain r where r: "r < n" "annual_entry df j r = Some (y, v)"
    "\<forall>r'. r < r' \<and> r' < n \<longrightarrow> (\<forall>v'. annual_entry df j r' \<noteq> Some (y, v'))"
    unfolding last_entry_def by blast
  have "\<forall>r'. r < r' \<and> r' < Suc n \<longrightarrow> (\<forall>v'. annual_entry df j r' \<noteq> Some (y, v'))"
    using r(3) assms by (auto simp add: less_Suc_eq)
  with r(1,2) show "last_entry df j (Suc n) y v" unfolding last_entry_def
    by (meson less_SucI)
qed

lemma last_entry_Suc_Some:
  assumes "annual_entry df j n = Some (y0, v0)"
  shows "last_entry df j (Suc n) y v = (if y = y0 then v = v0 else last_entry df j n y v)"
proof (cases "y = y0")
  case True
  have "last_entry df j (Suc n) y0 v = (v = v0)"
  proof
    assume "last_entry df j (Suc n) y0 v"
    then obtain r where r: "r < Suc n" "annual_entry df j r = Some (y0, v)"
      "\<forall>r'. r < r' \<and> r' < Suc n \<longrightarrow> (\<forall>v'. annual_entry df j r' \<noteq> Some (y0, v'))"
      unfolding last_entry_def by blast
    have "r = n"
    proof (rule ccontr)
      assume "r \<noteq> n"
      with r(1) have "r < n" by simp
      with r(3) assms show False by auto
    qed
    with r(2) assms show "v = v0" by simp
  next
    assume "v = v0"
    with assms show "last_entry df j (Suc n) y0 v"
      unfolding last_entry_def by (intro exI [of _ n]) auto
  qed
  with True show ?thesis by simp
next
  case False
  have "last_entry df j (Suc n) y v = last_entry df j n y v"
  proof
    assume "last_entry df j (Suc n) y v"
    then obtain r where r: "r < Suc n" "annual_entry df j r = Some (y, v)"
      "\<forall>r'. r < r' \<and> r' < Suc n \<longrightarrow> (\<forall>v'. annual_entry df j r' \<noteq> Some (y, v'))"
      unfolding last_entry_def by blast
    from r(2) assms False have "r \<noteq> n" by auto
    with r(1) have "r < n" by simp
    moreover from r(3) have "\<forall>r'. r < r' \<and> r' < n \<longrightarrow> (\<forall>v'. annual_entry df j r' \<noteq> Some (y, v'))"
      by simp
    ultimately show "last_entry df j n y v" unfolding last_entry_def using r(2) by blast
  next
    assume "last_entry df j n y v"
    then obtain r where r: "r < n" "annual_entry df j r = Some (y, v)"
      "\<forall>r'. r < r' \<and> r' < n \<longrightarrow> (\<forall>v'. annual_entry df j r' \<noteq> Some (y, v'))"
      unfolding last_entry_def by blast
    have "\<forall>r'. r < r' \<and> r' < Suc n \<longrightarrow> (\<forall>v'. annual_entry df j r' \<noteq> Some (y, v'))"
      using r(3) assms False by (auto simp add: less_Suc_eq)
    with r(1,2) show "last_entry df j (Suc n) y v" unfolding last_entry_def
      by (meson less_SucI)
  qed
  with False show ?thesis by simp
qed

lemma extract_prefix:
  assumes cols: "1 < shape1 df" and pos: "positional (shape1 df) col = Inr j"
    and years: "\<forall>r<shape0 df. cells df r 1 \<noteq> Num (PyFloat PInf) \<and> cells df r 1 \<noteq> Num (PyFloat NInf)"
    and vals: "\<forall>r<shape0 df. \<forall>i. cells df r j = Num (PyInt i) \<longrightarrow> \<bar>i\<bar> < float_overflow_bound"
    and python: "\<forall>r<shape0 df. \<forall>i. cells df r 1 \<noteq> NpInt i \<and> cells df r j \<noteq> NpInt i"
  shows "n \<le> shape0 df \<Longrightarrow>
         \<exists>result. extract_rows df col [0..<n] [] = Inr result \<and> distinct (map fst result) \<and>
           (\<forall>y v. map_of result y = Some v \<longleftrightarrow> last_entry df j n y v)"
proof (induction n)
  case 0
  then show ?case by (simp add: last_entry_def)
next
  case (Suc n)
  then obtain result where
    run: "extract_rows df col [0..<n] [] = Inr result" and
    dist: "distinct (map fst result)" and
    look: "\<forall>y v. map_of result y = Some v \<longleftrightarrow> last_entry df j n y v"
    by auto
  from Suc.prems have n: "n < shape0 df" by simp
  have step: "extract_row df col n result =
                Inr (case annual_entry df j n of
                       None \<Rightarrow> result
                     | Some (y, v) \<Rightarrow> AList.update y v result)"
    using n cols pos years vals python by (intro extract_row_entry) auto
  let ?next = "case annual_entry df j n of None \<Rightarrow> result | Some (y, v) \<Rightarrow> AList.update y v result"
  have run': "extract_rows df col [0..<Suc n] [] = Inr ?next"
    using run step by (simp add: extract_rows_append)
  have dist': "distinct (map fst ?next)"
    using dist by (simp add: distinct_update split: option.splits)
  have look': "map_of ?next y = Some v \<longleftrightarrow> last_entry df j (Suc n) y v" for y v
  proof (cases "annual_entry df j n")
    case None
    then show ?thesis using look by (simp add: last_entry_Suc_None)
  next
    case (Some p)
    obtain y0 v0 where p: "p = (y0, v0)" by (cases p)
    with Some show ?thesis using look
      by (auto simp add: last_entry_Suc_Some update_conv')
  qed
  from run' dist' look' show ?case by blast
qed

text \<open>
  C4, amended. On a sheet with at least two columns, with the value column inside the
  sheet, where no cell of the year column or of the value column is a numpy integer
  scalar, no cell of the year column is an infinite float and no int in the value
  column is too large for a float, \<open>extract_annual_data\<close> returns a dict: a year \<open>y\<close> is
  mapped to \<open>v\<close> exactly when some row has a numeric, non-missing year cell truncating to
  \<open>y\<close> within 2008 to 2035 and a numeric, non-missing value cell whose float (an int
  rounded to the nearest double) is \<open>v\<close>, and no later such row carries the same year.
  All other rows are skipped.
\<close>

theorem extract_annual_rows:
  assumes "1 < shape1 df" and "positional (shape1 df) col = Inr j"
    and "\<forall>r<shape0 df. cells df r 1 \<noteq> Num (PyFloat PInf) \<and> cells df r 1 \<noteq> Num (PyFloat NInf)"
    and "\<forall>r<shape0 df. \<forall>i. cells df r j = Num (PyInt i) \<longrightarrow> \<bar>i\<bar> < float_overflow_bound"
    and "\<forall>r<shape0 df. \<forall>i. cells df r 1 \<noteq> NpInt i \<and> cells df r j \<noteq> NpInt i"
  shows "\<exists>result. extract_annual_data df col = Inr result \<and> distinct (map fst result) \<and>
           (\<forall>y v. map_of result y = Some v \<longleftrightarrow>
              (\<exists>r<shape0 df.
                 annual_year (cells df r 1) = Some y \<and> numeric_value (cells df r j) = Some v \<and>
                 (\<forall>r'. r < r' \<and> r' < shape0 df \<longrightarrow>
                    \<not> (annual_year (cells df r' 1) = Some y \<and>
                       numeric_value (cells df r' j) \<noteq> None))))"
proof -
  have entry: "annual_entry df j r = Some (y, v) \<longleftrightarrow>
                 annual_year (cells df r 1) = Some y \<and> numeric_value (cells df r j) = Some v"
    for r y v
    by (auto simp add: annual_entry_def split: option.splits)
  have none: "(\<forall>v'. annual_entry df j r' \<noteq> Some (y, v')) \<longleftrightarrow>
                \<not> (annual_year (cells df r' 1) = Some y \<and> numeric_value (cells df r' j) \<noteq> None)"
    for r' y
    by (auto simp add: annual_entry_def split: option.splits)
  from extract_prefix [OF assms, of "shape0 df"] obtain result where
    "extract_rows df col [0..<shape0 df] [] = Inr result" "distinct (map fst result)"
    "\<forall>y v. map_of result y = Some v \<longleftrightarrow> last_entry df j (shape0 df) y v"
    by auto
  then show ?thesis
    unfolding extract_annual_data_def last_entry_def entry none by blast
qed

theorem extract_annual_rows_witness:
  "\<exists>result. extract_annual_data sheet_sample 2 = Inr result \<and>
     map_of result 2025 = Some (Finite 9) \<and> map_of result 2050 = None"
proof -
  have cols: "1 < shape1 sheet_sample" by (simp add: sheet_eval)
  have pos: "positional (shape1 sheet_sample) 2 = Inr 2" by (simp add: sheet_eval)
  have rows: "r < shape0 sheet_sample \<longleftrightarrow> r = 0 \<or> r = 1 \<or> r = 2 \<or> r = 3 \<or> r = 4 \<or> r = 5" for r
    by (auto simp add: sheet_eval)
  have years: "\<forall>r<shape0 sheet_sample.
      cells sheet_sample r 1 \<noteq> Num (PyFloat PInf) \<and> cells sheet_sample r 1 \<noteq> Num (PyFloat NInf)"
    unfolding rows by (auto simp add: sheet_eval)
  have vals: "\<forall>r<shape0 sheet_sample. \<forall>i.
      cells sheet_sample r 2 = Num (PyInt i) \<longrightarrow> \<bar>i\<bar> < float_overflow_bound"
    unfolding rows by (auto simp add: sheet_eval)
  have python: "\<forall>r<shape0 sheet_sample. \<forall>i.
      cells sheet_sample r 1 \<noteq> NpInt i \<and> cells sheet_sample r 2 \<noteq> NpInt i"
    unfolding rows by (auto simp add: sheet_eval)
  from extract_annual_rows [OF cols pos years vals python] obtain result where
    run: "extract_annual_data sheet_sample 2 = Inr result" by blast
  moreover have "extract_annual_data sheet_sample 2 = Inr [(2025, Finite 9), (2026, Finite 4)]"
    by (simp add: sheet_eval)
  ultimately have "result = [(2025, Finite 9), (2026, Finite 4)]" by simp
  with run show ?thesis by simp
qed

text \<open>
  A value column outside the sheet raises IndexError at the first annual row.
\<close>

theorem extract_out_of_range_column:
  "extract_annual_data narrow_sample 4 = Inl IndexError"
  by (simp add: sheet_eval)

text \<open>
  Two evaluations of the code. A year cell that is a \<^verbatim>\<open>numpy.int64\<close> fails the
  \<^verbatim>\<open>isinstance\<close> test, so its row is skipped although the specification's notion counts
  it as an annual row. An int value of more than 53 bits is stored rounded.
\<close>

lemma numpy_int_year_skipped:
  "annual_entry int64_sample 2 0 = Some (2025, Finite 3.45) \<and>
   extract_annual_data int64_sample 2 = Inr []"
  by (simp add: sheet_eval annual_entry_def annual_year_def numeric_value_def)

lemma big_int_rounded:
  "extract_annual_data big_int_sample 2 = Inr [(2025, Finite 9007199254740992)]"
proof -
  have "round_to_double 9007199254740993 = 9007199254740992" by code_simp
  then show ?thesis
    by (simp add: big_int_sample_def from_rows_def extract_annual_data_def extract_row_def
        iloc_def positional_def upt_rec float_overflow_bound_def)
qed

section \<open>Comparing two snapshots\<close>

text \<open>
  C3, amended. For two snapshots whose edition names differ, \<open>compare_to\<close> returns a
  table with the requested years as its index, one row per requested year, and exactly
  two columns, named after \<open>self\<close>'s and \<open>other\<close>'s editions in that order, holding what
  \<open>get\<close> returns for each year; with no list of years it uses 2025 to 2030.
\<close>

theorem compare_to_shape:
  assumes "edition self \<noteq> edition other"
  shows "(\<exists>t. compare_to self other metric (Some years) = Inr t \<and>
            frame_index t = years \<and>
            frame_columns t =
              [(edition self, map (get self metric) years),
               (edition other, map (get other metric) years)] \<and>
            length (frame_index t) = length years \<and>
            length (frame_columns t) = 2 \<and>
            list_all (\<lambda>kv. length (snd kv) = length years) (frame_columns t)) \<and>
         compare_to self other metric None =
           compare_to self other metric (Some [2025, 2026, 2027, 2028, 2029, 2030])"
  using assms by (simp add: compare_to_def pd_DataFrame_def default_years_def)

theorem compare_to_shape_witness:
  "compare_to november_sample march_sample ''cpi'' (Some [2025, 2026]) =
     Inr \<lparr>frame_index = [2025, 2026],
          frame_columns =
            [(''november-2025'', [Some (Finite 3.45), Some (Finite 2.48)]),
             (''march-2025'', [Some (Finite 3.21), Some (Finite 2.08)])]\<rparr>"
proof -
  have "edition november_sample \<noteq> edition march_sample"
    by (simp add: november_sample_def march_sample_def)
  from compare_to_shape [OF this, of "''cpi''" "[2025, 2026]"] show ?thesis
    by (auto simp add: november_sample_def march_sample_def get_def)
qed

text \<open>A snapshot compared with one of the same edition gives a table of one column.\<close>

theorem compare_to_same_edition:
  "compare_to march_sample march_sample ''cpi'' (Some [2025, 2026]) =
     Inr \<lparr>frame_index = [2025, 2026],
          frame_columns = [(''march-2025'', [Some (Finite 3.21), Some (Finite 2.08)])]\<rparr>"
  by (simp add: compare_to_def pd_DataFrame_def march_sample_def get_def)

section \<open>Fetching and caching\<close>

text \<open>
  C2, amended. For an edition outside the registry with no file at its cache path,
  resolving the path raises ValueError and leaves the world as it was (no request, no
  file written), and so does loading the snapshot's data.
\<close>

theorem unknown_edition_uncached:
  assumes "map_of OBR_URLS (edition self) = None" and "files w (cache_path_of self) = None"
  shows "get_excel_path w self = (Inl ValueError, w) \<and> load_data w self = (Inl ValueError, w)"
  using assms by (simp add: get_excel_path_def load_data_def)

theorem unknown_edition_uncached_witness:
  "get_excel_path failing_world june_sample = (Inl ValueError, failing_world)"
proof -
  have a: "map_of OBR_URLS (edition june_sample) = None"
    by (simp add: OBR_URLS_def june_sample_def)
  have b: "files failing_world (cache_path_of june_sample) = None"
    by (simp add: failing_world_def)
  from unknown_edition_uncached [OF a b] show ?thesis by simp
qed

text \<open>
  With a file at its cache path, an edition outside the registry resolves to that path.
\<close>

theorem unknown_edition_cached:
  "map_of OBR_URLS (edition june_sample) = None \<and>
   fst (get_excel_path cached_world june_sample) = Inr ''/tmp/obr_june-2024_economy.xlsx'' \<and>
   requests (snd (get_excel_path cached_world june_sample)) = []"
  by (simp add: OBR_URLS_def june_sample_def get_excel_path_def cached_world_def cache_path_of_def Let_def)

text \<open>
  When the server answers 500, two calls for a registered edition issue two requests.
\<close>

theorem refetch_after_failure:
  "map_of OBR_URLS (edition march_empty) \<noteq> None \<and>
   fst (get_excel_path failing_world march_empty) = Inl HTTPError \<and>
   fst (get_excel_path (snd (get_excel_path failing_world march_empty)) march_empty) = Inl HTTPError \<and>
   length (requests (snd (get_excel_path (snd (get_excel_path failing_world march_empty)) march_empty))) = 2"
  by (simp add: OBR_URLS_def march_empty_def get_excel_path_def failing_world_def cache_path_of_def Let_def)

lemma get_excel_path_Inr:
  assumes "get_excel_path w self = (Inr p, w1)"
  shows "p = cache_path_of self \<and> files w1 p \<noteq> None \<and>
         length (requests w1) \<le> length (requests w) + 1 \<and>
         (\<forall>q. q \<noteq> p \<longrightarrow> files w1 q = files w q) \<and>
         (files w p \<noteq> None \<longrightarrow> w1 = w)"
  using assms unfolding get_excel_path_def
  by (auto simp add: Let_def split: if_splits option.splits response.splits)

text \<open>
  C7, amended. When a call of the fetch step returns a path, it is the edition's cache
  path, it issued at most one request, the cache file exists, and a second call returns
  the same path and changes nothing: no request, and the same file content.
\<close>

theorem fetch_once:
  assumes "get_excel_path w self = (Inr p, w1)"
  shows "get_excel_path w1 self = (Inr p, w1) \<and>
         p = cache_path_of self \<and> files w1 p \<noteq> None \<and>
         length (requests w1) \<le> length (requests w) + 1"
proof -
  note facts = get_excel_path_Inr [OF assms]
  from facts have p: "p = cache_path_of self" by blast
  from facts have f: "files w1 p \<noteq> None" by blast
  from facts have n: "length (requests w1) \<le> length (requests w) + 1" by blast
  from f have "files w1 (cache_path_of self) \<noteq> None" unfolding p .
  then have "get_excel_path w1 self = (Inr p, w1)"
    unfolding p by (auto simp add: get_excel_path_def Let_def)
  with p f n show ?thesis by simp
qed

theorem fetch_once_witness:
  "fst (get_excel_path serving_world march_empty) = Inr ''/tmp/obr_march-2025_economy.xlsx'' \<and>
   get_excel_path (snd (get_excel_path serving_world march_empty)) march_empty =
     (Inr ''/tmp/obr_march-2025_economy.xlsx'', snd (get_excel_path serving_world march_empty)) \<and>
   length (requests (snd (get_excel_path serving_world march_empty))) = 1 \<and>
   files (snd (get_excel_path serving_world march_empty)) ''/tmp/obr_march-2025_economy.xlsx'' = Some ''PK''"
proof -
  have first: "fst (get_excel_path serving_world march_empty) = Inr ''/tmp/obr_march-2025_economy.xlsx''"
    by (simp add: OBR_URLS_def march_empty_def get_excel_path_def serving_world_def cache_path_of_def Let_def)
  then have pair: "get_excel_path serving_world march_empty =
      (Inr ''/tmp/obr_march-2025_economy.xlsx'', snd (get_excel_path serving_world march_empty))"
    by (metis prod.collapse)
  have rest: "length (requests (snd (get_excel_path serving_world march_empty))) = 1 \<and>
   files (snd (get_excel_path serving_world march_empty)) ''/tmp/obr_march-2025_economy.xlsx'' = Some ''PK''"
    by (simp add: OBR_URLS_def march_empty_def get_excel_path_def serving_world_def cache_path_of_def Let_def)
  from fetch_once [OF pair] first rest show ?thesis by simp
qed

section \<open>Loading the sheets\<close>

lemma same_book_refl: "same_book w w"
  by (simp add: same_book_def)

lemma same_book_trans: "same_book w w' \<Longrightarrow> same_book w' w'' \<Longrightarrow> same_book w w''"
  by (auto simp add: same_book_def)

lemma same_book_warn: "same_book w (warn w sheet_name e)"
  by (auto simp add: same_book_def warn_def)



lemma read_excel_same_book: "same_book w w' \<Longrightarrow> read_excel w' p sheet_name = read_excel w p sheet_name"
  by (auto simp add: same_book_def read_excel_def split: option.splits)




lemma load_sheet_1_7_world: "same_book w (snd (load_sheet_1_7 w self p))"
  by (simp add: load_sheet_1_7_def same_book_refl same_book_warn split: sum.splits)

lemma load_sheet_1_6_world: "same_book w (snd (load_sheet_1_6 w self p))"
  by (simp add: load_sheet_1_6_def same_book_refl same_book_warn split: sum.splits option.splits)


lemma load_sheet_1_7_same_book:
  "same_book w w' \<Longrightarrow> fst (load_sheet_1_7 w' self p) = fst (load_sheet_1_7 w self p)"
  by (simp add: load_sheet_1_7_def read_excel_same_book split: sum.splits)

lemma load_sheet_1_6_same_book:
  "same_book w w' \<Longrightarrow> fst (load_sheet_1_6 w' self p) = fst (load_sheet_1_6 w self p)"
  by (simp add: load_sheet_1_6_def read_excel_same_book split: sum.splits option.splits)

lemma load_sheet_1_16_same_book:
  "same_book w w' \<Longrightarrow> fst (load_sheet_1_16 w' self p) = fst (load_sheet_1_16 w self p)"
  by (simp add: load_sheet_1_16_def read_excel_same_book split: sum.splits option.splits)










lemma load_tail_fst:
  assumes "same_book w1 w2"
  shows "fst (load_tail w2 self2 p) =
           (case fst (load_sheet_1_6 w1 self2 p) of
              Inl x \<Rightarrow> Inl x
            | Inr s3 \<Rightarrow> fst (load_sheet_1_16 w1 s3 p))"
proof -
  obtain r3 w3 where b: "load_sheet_1_6 w2 self2 p = (r3, w3)"
    by (cases "load_sheet_1_6 w2 self2 p")
  have r3: "fst (load_sheet_1_6 w1 self2 p) = r3"
    using load_sheet_1_6_same_book [OF assms, of self2 p] b by simp
  have w3: "same_book w1 w3"
    using load_sheet_1_6_world [of w2 self2 p] b assms by (auto intro: same_book_trans)
  show ?thesis
  proof (cases r3)
    case (Inl e)
    with b r3 show ?thesis by (simp add: load_tail_def)
  next
    case (Inr self3)
    have "fst (load_sheet_1_16 w3 self3 p) = fst (load_sheet_1_16 w1 self3 p)"
      by (rule load_sheet_1_16_same_book [OF w3])
    with b r3 Inr show ?thesis by (simp add: load_tail_def)
  qed
qed

lemma load_sheets_fst:
  "fst (load_sheets w1 self p) =
     (case fst (load_sheet_1_7 w1 self p) of
        Inl x \<Rightarrow> Inl x
      | Inr s2 \<Rightarrow>
          (case fst (load_sheet_1_6 w1 s2 p) of
             Inl x \<Rightarrow> Inl x
           | Inr s3 \<Rightarrow> fst (load_sheet_1_16 w1 s3 p)))"
proof -
  obtain r2 w2 where a: "load_sheet_1_7 w1 self p = (r2, w2)" by (cases "load_sheet_1_7 w1 self p")
  have w2: "same_book w1 w2" using load_sheet_1_7_world [of w1 self p] a by simp
  show ?thesis
  proof (cases r2)
    case (Inl e)
    with a show ?thesis by (simp add: load_sheets_def)
  next
    case (Inr self2)
    with a load_tail_fst [OF w2, of self2 p] show ?thesis by (simp add: load_sheets_def)
  qed
qed

lemma load_sheets_keys:
  assumes "fst (load_sheets w1 self p) = Inr s"
  obtains s2 s3 where "fst (load_sheet_1_7 w1 self p) = Inr s2"
    and "fst (load_sheet_1_6 w1 s2 p) = Inr s3" and "fst (load_sheet_1_16 w1 s3 p) = Inr s"
  using assms unfolding load_sheets_fst by (auto split: sum.splits)








end
